theory Spec2Isabelle
  imports Complex_Main "HOL-Library.AList" "HOL-Library.Multiset"
begin

section \<open>The chatbot of \<^verbatim>\<open>main.py\<close>: data and external collaborators\<close>

text \<open>
  The program is glue around collaborators that are not part of it: the JSON parser,
  the builtin \<^verbatim>\<open>float\<close>, the language model, the history wrapper of the chain
  library, and the relational engine behind \<^verbatim>\<open>db_cursor\<close>. The first three are
  parameters of the model (record \<open>env\<close>).

  The engine is modelled by what the program can observe of it: the rows of the table
  \<^verbatim>\<open>chat_history\<close> in the order a scan of the table returns them, and the sequence
  of statements and commits the cursor was given (the \<open>trace\<close>, which also records
  the prompts on the terminal, the calls of the chain and the calls of the provider).
  The table has no ordering column and the \<^verbatim>\<open>SELECT\<close> no \<^verbatim>\<open>ORDER BY\<close>, so where a
  new row comes to stand among the rows already there is the engine's choice: it is the
  parameter \<open>heap_slot\<close>. The engine is taken to accept every statement. What it does
  with the statements that \<^verbatim>\<open>process_schema\<close> builds from the schema is not
  interpreted: they are recorded with their text and their bound parameters.

  A Python \<^verbatim>\<open>str\<close> is a \<open>string\<close>; its characters are the code points below 256.
\<close>

subsection \<open>Exceptions\<close>

datatype error =
    JSONDecodeError
  | AttributeError
  | TypeError
  | KeyError string
  | ValueError
  | EOFError
  | RecursionError
  | ProviderError

subsection \<open>Messages and the history object\<close>

text \<open>
  \<^verbatim>\<open>BaseMessage\<close> has more subclasses than the two the store distinguishes;
  \<open>SystemMessage\<close> is the one the program itself creates (in the prompt).
\<close>

datatype message =
    is_AIMessage: AIMessage (content: string)
  | is_HumanMessage: HumanMessage (content: string)
  | is_SystemMessage: SystemMessage (content: string)

record PersistentChatHistory =
  user_id :: string
  conversation_id :: string
  messages :: "message list"

subsection \<open>JSON values, as \<^verbatim>\<open>json.loads\<close> returns them\<close>

text \<open>
  A \<^verbatim>\<open>dict\<close> is an association list in insertion order, looked up with \<open>map_of\<close>.
  The type \<open>'f\<close> stands for Python's \<^verbatim>\<open>float\<close>.
\<close>

datatype 'f json =
    JNull
  | JBool bool
  | JInt int
  | JFloat 'f
  | JStr string
  | JArr "'f json list"
  | JObj "(string \<times> 'f json) list"

text \<open>The values bound to the \<^verbatim>\<open>%s\<close> placeholders of a statement.\<close>

datatype 'f pyvalue = VStr string | VFloat 'f

subsection \<open>The world: database, terminal, and the trace of effects\<close>

type_synonym row = "string \<times> string \<times> string \<times> string"

datatype 'f event =
    Execute string "'f pyvalue list"
  | Commit
  | Input string
  | InvokeChain string "(string \<times> string) list"
  | Invoke "message list"

record 'f world =
  chat_history :: "row list"
  trace :: "'f event list"
  stdin :: "string list"

record 'f env =
  json_loads :: "string \<Rightarrow> error + 'f json"
  py_float :: "string \<Rightarrow> 'f option"
  py_str :: "'f json \<Rightarrow> string"
  llm :: "message list \<Rightarrow> error + string"
  heap_slot :: "row list \<Rightarrow> row \<Rightarrow> nat"

text \<open>
  \<^item> \<open>json_loads\<close>: \<^verbatim>\<open>json.loads\<close>; \<open>Inl JSONDecodeError\<close> when the text is not JSON,
    \<open>Inl\<close> of another exception when the parser gives up otherwise.
  \<^item> \<open>py_float\<close>: \<^verbatim>\<open>float\<close> on a \<^verbatim>\<open>str\<close>; \<open>None\<close> when it raises \<^verbatim>\<open>ValueError\<close>.
  \<^item> \<open>py_str\<close>: how an f-string formats a JSON value that is not a \<^verbatim>\<open>str\<close>.
  \<^item> \<open>llm\<close>: the provider, from the message list to the content of its reply.
  \<^item> \<open>heap_slot\<close>: given the rows of \<^verbatim>\<open>chat_history\<close> in scan order and a new row,
    the number of rows that a later scan returns before the new one. An engine that
    only ever adds at the end answers the number of rows; one that reuses the space of
    deleted rows answers less.
\<close>

subsection \<open>Python's string operations\<close>

definition isspace :: "char \<Rightarrow> bool" where
  "isspace c = (of_char c \<in> set [9, 10, 11, 12, 13, 28, 29, 30, 31, 32, 133, 160 :: nat])"

definition strip :: "string \<Rightarrow> string" where
  "strip s = rev (dropWhile isspace (rev (dropWhile isspace s)))"

fun join :: "string \<Rightarrow> string list \<Rightarrow> string" where
  "join sep [] = []"
| "join sep [x] = x"
| "join sep (x # y # ys) = x @ sep @ join sep (y # ys)"

definition nl :: string where
  "nl = [CHR 0x0A]"

definition indent :: string where
  "indent = replicate 12 CHR '' ''"

subsection \<open>The cursor\<close>

definition execute :: "string \<Rightarrow> 'f pyvalue list \<Rightarrow> 'f world \<Rightarrow> 'f world" where
  "execute sql params w = w\<lparr>trace := trace w @ [Execute sql params]\<rparr>"

definition commit :: "'f world \<Rightarrow> 'f world" where
  "commit w = w\<lparr>trace := trace w @ [Commit]\<rparr>"

definition input :: "string \<Rightarrow> 'f world \<Rightarrow> (error + string) \<times> 'f world" where
  "input prompt w =
     (let w1 = w\<lparr>trace := trace w @ [Input prompt]\<rparr>
      in case stdin w1 of
           [] \<Rightarrow> (Inl EOFError, w1)
         | line # rest \<Rightarrow> (Inr line, w1\<lparr>stdin := rest\<rparr>))"

section \<open>PersistentChatHistory\<close>

definition INSERT_chat_history :: string where
  "INSERT_chat_history =
     nl @ indent @ ''INSERT INTO chat_history (user_id, conversation_id, message_type, content)'' @
     nl @ indent @ ''VALUES (%s, %s, %s, %s)'' @
     nl @ indent"

definition SELECT_chat_history :: string where
  "SELECT_chat_history =
     nl @ indent @ ''SELECT message_type, content FROM chat_history'' @
     nl @ indent @ ''WHERE user_id = %s AND conversation_id = %s'' @
     nl @ indent"

definition DELETE_chat_history :: string where
  "DELETE_chat_history =
     nl @ indent @ ''DELETE FROM chat_history'' @
     nl @ indent @ ''WHERE user_id = %s AND conversation_id = %s'' @
     nl @ indent"

text \<open>
  The three methods, lines 52 to 90. Each gives the cursor its statement with the bound
  parameters; the effect on the rows is that of the statement on the table.
\<close>

definition row_matches :: "string \<Rightarrow> string \<Rightarrow> row \<Rightarrow> bool" where
  "row_matches u c r = (case r of (ru, rc, t, txt) \<Rightarrow> ru = u \<and> rc = c)"

definition row_message :: "row \<Rightarrow> message" where
  "row_message r =
     (case r of (ru, rc, t, txt) \<Rightarrow> if t = ''AI'' then AIMessage txt else HumanMessage txt)"

definition store_row :: "'f env \<Rightarrow> row \<Rightarrow> row list \<Rightarrow> row list" where
  "store_row env r rows =
     (let n = heap_slot env rows r in take n rows @ r # drop n rows)"

definition add_message ::
  "'f env \<Rightarrow> PersistentChatHistory \<Rightarrow> message \<Rightarrow> 'f world \<Rightarrow>
   PersistentChatHistory \<times> 'f world" where
  "add_message env self message w =
     (let message_type = (if is_AIMessage message then ''AI'' else ''Human'');
          w1 = execute INSERT_chat_history
                 [VStr (user_id self), VStr (conversation_id self),
                  VStr message_type, VStr (content message)] w;
          w2 = w1\<lparr>chat_history := store_row env
                 (user_id self, conversation_id self, message_type, content message)
                 (chat_history w1)\<rparr>;
          w3 = commit w2
      in (self\<lparr>messages := messages self @ [message]\<rparr>, w3))"

definition fetch_existing_messages ::
  "PersistentChatHistory \<Rightarrow> 'f world \<Rightarrow> message list \<times> 'f world" where
  "fetch_existing_messages self w =
     (let w1 = execute SELECT_chat_history
                 [VStr (user_id self), VStr (conversation_id self)] w;
          rows = filter (row_matches (user_id self) (conversation_id self)) (chat_history w1)
      in (map row_message rows, w1))"

definition clear ::
  "PersistentChatHistory \<Rightarrow> 'f world \<Rightarrow> PersistentChatHistory \<times> 'f world" where
  "clear self w =
     (let w1 = execute DELETE_chat_history
                 [VStr (user_id self), VStr (conversation_id self)] w;
          w2 = w1\<lparr>chat_history :=
                 filter (\<lambda>r. \<not> row_matches (user_id self) (conversation_id self) r)
                   (chat_history w1)\<rparr>;
          w3 = commit w2
      in (self\<lparr>messages := []\<rparr>, w3))"

text \<open>The constructor: the fields are set, then the history is read from the table.\<close>

definition PersistentChatHistory_init ::
  "string \<Rightarrow> string \<Rightarrow> 'f world \<Rightarrow> PersistentChatHistory \<times> 'f world" where
  "PersistentChatHistory_init u c w =
     (let self = \<lparr>user_id = u, conversation_id = c, messages = []\<rparr>;
          (ms, w1) = fetch_existing_messages self w
      in (self\<lparr>messages := ms\<rparr>, w1))"

text \<open>
  \<^verbatim>\<open>add_messages\<close> is inherited from \<^verbatim>\<open>BaseChatMessageHistory\<close>: it calls
  \<^verbatim>\<open>add_message\<close> for each message in turn.
\<close>

fun add_messages ::
  "'f env \<Rightarrow> PersistentChatHistory \<Rightarrow> message list \<Rightarrow> 'f world \<Rightarrow>
   PersistentChatHistory \<times> 'f world" where
  "add_messages env self [] w = (self, w)"
| "add_messages env self (m # ms) w =
     (case add_message env self m w of (self1, w1) \<Rightarrow> add_messages env self1 ms w1)"

section \<open>The chain with memory\<close>

definition chat_prompt :: "message list \<Rightarrow> string \<Rightarrow> message list" where
  "chat_prompt history question =
     [SystemMessage ''You are a helpful assistant.''] @ history @ [HumanMessage question]"

text \<open>
  \<^verbatim>\<open>RunnableWithMessageHistory.invoke\<close>, called with the input and with the
  \<^verbatim>\<open>configurable\<close> part of the configuration. The wrapper first looks up every id
  of \<^verbatim>\<open>history_factory_config\<close> in \<^verbatim>\<open>configurable\<close> and raises \<^verbatim>\<open>ValueError\<close>
  when one is missing; the \<^verbatim>\<open>default\<close> of a \<^verbatim>\<open>ConfigurableFieldSpec\<close> is not
  consulted. With both ids it calls the factory of line 98 with them, the messages of
  the history object fill the placeholder (\<^verbatim>\<open>history_messages_key\<close>), the chain
  \<^verbatim>\<open>chat_prompt | llm\<close> runs, and when it has returned, the question (as a human
  message, \<^verbatim>\<open>input_messages_key\<close>) and the reply are added to the history object.
  An exception of the provider leaves the store as it is.
\<close>

definition chat_with_memory_invoke ::
  "'f env \<Rightarrow> (string \<times> string) list \<Rightarrow> string \<Rightarrow> 'f world \<Rightarrow>
   (error + message) \<times> 'f world" where
  "chat_with_memory_invoke env configurable question w =
     (let w0 = w\<lparr>trace := trace w @ [InvokeChain question configurable]\<rparr>
      in case map_of configurable ''user_id'' of
           None \<Rightarrow> (Inl ValueError, w0)
         | Some u \<Rightarrow>
             (case map_of configurable ''conversation_id'' of
                None \<Rightarrow> (Inl ValueError, w0)
              | Some c \<Rightarrow>
                  (case PersistentChatHistory_init u c w0 of
                     (hist, w1) \<Rightarrow>
                       (let prompt = chat_prompt (messages hist) question;
                            w2 = w1\<lparr>trace := trace w1 @ [Invoke prompt]\<rparr>
                        in case llm env prompt of
                             Inl e \<Rightarrow> (Inl e, w2)
                           | Inr reply \<Rightarrow>
                               (case add_messages env hist
                                       [HumanMessage question, AIMessage reply] w2 of
                                  (hist1, w3) \<Rightarrow> (Inr (AIMessage reply), w3))))))"

section \<open>process\_schema\<close>

subsection \<open>The operations of Python on the parsed schema\<close>

text \<open>
  The parsed schema is whatever JSON value the text denotes, so each operation may
  raise: \<^verbatim>\<open>.get\<close> exists on a \<^verbatim>\<open>dict\<close> only, a subscript with a \<^verbatim>\<open>str\<close> works on a
  \<^verbatim>\<open>dict\<close> only, a \<^verbatim>\<open>for\<close> runs over a list, over the keys of a \<^verbatim>\<open>dict\<close> and over
  the characters of a \<^verbatim>\<open>str\<close>, a \<^verbatim>\<open>dict\<close> key must be hashable, and \<^verbatim>\<open>join\<close> takes
  strings only.
\<close>

definition dict_get :: "'f json \<Rightarrow> string \<Rightarrow> 'f json \<Rightarrow> error + 'f json" where
  "dict_get d k dflt =
     (case d of
        JObj kvs \<Rightarrow> (case map_of kvs k of Some v \<Rightarrow> Inr v | None \<Rightarrow> Inr dflt)
      | _ \<Rightarrow> Inl AttributeError)"

definition getitem :: "'f json \<Rightarrow> string \<Rightarrow> error + 'f json" where
  "getitem d k =
     (case d of
        JObj kvs \<Rightarrow> (case map_of kvs k of Some v \<Rightarrow> Inr v | None \<Rightarrow> Inl (KeyError k))
      | _ \<Rightarrow> Inl TypeError)"

definition iterate :: "'f json \<Rightarrow> error + 'f json list" where
  "iterate v =
     (case v of
        JArr xs \<Rightarrow> Inr xs
      | JObj kvs \<Rightarrow> Inr (map (\<lambda>kv. JStr (fst kv)) kvs)
      | JStr s \<Rightarrow> Inr (map (\<lambda>ch. JStr [ch]) s)
      | _ \<Rightarrow> Inl TypeError)"

definition format :: "'f env \<Rightarrow> 'f json \<Rightarrow> string" where
  "format env v = (case v of JStr s \<Rightarrow> s | _ \<Rightarrow> py_str env v)"

definition hashable :: "'f json \<Rightarrow> bool" where
  "hashable v = (case v of JArr xs \<Rightarrow> False | JObj kvs \<Rightarrow> False | _ \<Rightarrow> True)"

definition str_keys :: "'f json list \<Rightarrow> error + string list" where
  "str_keys ks =
     (if list_all (\<lambda>k. case k of JStr s \<Rightarrow> True | _ \<Rightarrow> False) ks
      then Inr (map (\<lambda>k. case k of JStr s \<Rightarrow> s | _ \<Rightarrow> []) ks)
      else Inl TypeError)"

subsection \<open>The three steps\<close>

text \<open>The list comprehension of line 127, one column definition per field.\<close>

fun columns :: "'f env \<Rightarrow> 'f json list \<Rightarrow> error + string list" where
  "columns env [] = Inr []"
| "columns env (field # flds) =
     (case getitem field ''name'' of
        Inl e \<Rightarrow> Inl e
      | Inr name \<Rightarrow>
          (case getitem field ''type'' of
             Inl e \<Rightarrow> Inl e
           | Inr ty \<Rightarrow>
               (case columns env flds of
                  Inl e \<Rightarrow> Inl e
                | Inr cols \<Rightarrow>
                    Inr ((format env name @ '' '' @
                          (if ty = JStr ''text'' then ''TEXT'' else ''NUMERIC'')) # cols))))"

text \<open>Lines 135 and 136: the solicited text, made a float for a field of type number.\<close>

definition coerce :: "'f env \<Rightarrow> 'f json \<Rightarrow> string \<Rightarrow> error + 'f pyvalue" where
  "coerce env ty input_value =
     (if ty = JStr ''number''
      then (case py_float env input_value of
              None \<Rightarrow> Inl ValueError
            | Some x \<Rightarrow> Inr (VFloat x))
      else Inr (VStr input_value))"

text \<open>
  The loop of lines 133 to 137. \<open>data_to_insert\<close> is a \<^verbatim>\<open>dict\<close>: assigning to a key
  it already has replaces the value and keeps the key's place (\<open>AList.update\<close>).
\<close>

fun collect ::
  "'f env \<Rightarrow> 'f json list \<Rightarrow> ('f json \<times> 'f pyvalue) list \<Rightarrow> 'f world \<Rightarrow>
   (error + ('f json \<times> 'f pyvalue) list) \<times> 'f world" where
  "collect env [] data_to_insert w = (Inr data_to_insert, w)"
| "collect env (field # flds) data_to_insert w =
     (case getitem field ''label'' of
        Inl e \<Rightarrow> (Inl e, w)
      | Inr label \<Rightarrow>
          (case input (format env label @ '': '') w of
             (Inl e, w1) \<Rightarrow> (Inl e, w1)
           | (Inr input_value, w1) \<Rightarrow>
               (case getitem field ''type'' of
                  Inl e \<Rightarrow> (Inl e, w1)
                | Inr ty \<Rightarrow>
                    (case coerce env ty input_value of
                       Inl e \<Rightarrow> (Inl e, w1)
                     | Inr v \<Rightarrow>
                         (case getitem field ''name'' of
                            Inl e \<Rightarrow> (Inl e, w1)
                          | Inr name \<Rightarrow>
                              if hashable name
                              then collect env flds (AList.update name v data_to_insert) w1
                              else (Inl TypeError, w1))))))"

text \<open>The f-strings of lines 128, 141 and 145.\<close>

definition create_sql :: "string \<Rightarrow> string list \<Rightarrow> string" where
  "create_sql table_name cols =
     ''CREATE TABLE IF NOT EXISTS '' @ table_name @ '' ('' @ join '', '' cols @ '');''"

definition insert_sql :: "string \<Rightarrow> string list \<Rightarrow> string" where
  "insert_sql table_name keys =
     ''INSERT INTO '' @ table_name @ '' ('' @ join '', '' keys @ '') VALUES ('' @
     join '', '' (replicate (length keys) ''%s'') @ '')''"

definition success_message :: "string \<Rightarrow> string" where
  "success_message table_name =
     ''Data successfully saved to table '' @ [CHR 0x27] @ table_name @ [CHR 0x27] @ ''.''"

text \<open>
  Lines 122 to 145. Python compares the keys of \<open>data_to_insert\<close> with its own
  equality, under which \<^verbatim>\<open>1\<close>, \<^verbatim>\<open>1.0\<close> and \<^verbatim>\<open>True\<close> are one key; this differs from
  equality of JSON values only when a name is not a \<^verbatim>\<open>str\<close>, and then the
  \<^verbatim>\<open>join\<close> of line 141 raises \<open>TypeError\<close> in either reading.
\<close>

definition process_schema :: "'f env \<Rightarrow> 'f json \<Rightarrow> 'f world \<Rightarrow> (error + string) \<times> 'f world" where
  "process_schema env schema w =
     (case dict_get schema ''table_name'' (JStr ''dynamic_data'') of
        Inl e \<Rightarrow> (Inl e, w)
      | Inr table_name \<Rightarrow>
     (case dict_get schema ''fields'' (JArr []) of
        Inl e \<Rightarrow> (Inl e, w)
      | Inr fields_value \<Rightarrow>
     (case iterate fields_value of
        Inl e \<Rightarrow> (Inl e, w)
      | Inr flds \<Rightarrow>
     (case columns env flds of
        Inl e \<Rightarrow> (Inl e, w)
      | Inr cols \<Rightarrow>
     (let w1 = commit (execute (create_sql (format env table_name) cols) [] w)
      in case collect env flds [] w1 of
           (Inl e, w2) \<Rightarrow> (Inl e, w2)
         | (Inr data_to_insert, w2) \<Rightarrow>
             (case str_keys (map fst data_to_insert) of
                Inl e \<Rightarrow> (Inl e, w2)
              | Inr keys \<Rightarrow>
                  (Inr (success_message (format env table_name)),
                   commit (execute (insert_sql (format env table_name) keys)
                             (map snd data_to_insert) w2))))))))"

section \<open>The dispatcher\<close>

definition invalid_format_message :: string where
  "invalid_format_message = ''Invalid JSON format for schema.''"

text \<open>
  The \<^verbatim>\<open>try\<close> covers the parse and the call of \<^verbatim>\<open>process_schema\<close>; only
  \<^verbatim>\<open>json.JSONDecodeError\<close> is caught, every other exception leaves the function.
  In the other branch the chain is called with the input alone (line 165): no
  configuration.
\<close>

definition handle_interaction ::
  "'f env \<Rightarrow> string \<Rightarrow> string \<Rightarrow> 'f world \<Rightarrow> (error + string) \<times> 'f world" where
  "handle_interaction env schema question w =
     (if strip schema \<noteq> []
      then (case (case json_loads env schema of
                    Inl e \<Rightarrow> (Inl e, w)
                  | Inr schema_dict \<Rightarrow> process_schema env schema_dict w) of
              (Inl JSONDecodeError, w1) \<Rightarrow> (Inr invalid_format_message, w1)
            | r \<Rightarrow> r)
      else (case chat_with_memory_invoke env [] question w of
              (Inl e, w1) \<Rightarrow> (Inl e, w1)
            | (Inr reply, w1) \<Rightarrow> (Inr (content reply), w1)))"

section \<open>The schema descriptions of the data model\<close>

text \<open>
  A schema description has an optional table name and a sequence of field
  specifications, each with a name, a label and a type, all strings. These functions
  give the \<^verbatim>\<open>dict\<close> such a description is parsed to.
\<close>

record FieldSpec =
  fname :: string
  flabel :: string
  ftype :: string

definition FieldSpec_json :: "FieldSpec \<Rightarrow> 'f json" where
  "FieldSpec_json f =
     JObj [(''name'', JStr (fname f)), (''label'', JStr (flabel f)), (''type'', JStr (ftype f))]"

definition SchemaDescription_json :: "string option \<Rightarrow> FieldSpec list \<Rightarrow> 'f json" where
  "SchemaDescription_json table fs =
     JObj ((case table of None \<Rightarrow> [] | Some t \<Rightarrow> [(''table_name'', JStr t)]) @
           [(''fields'', JArr (map FieldSpec_json fs))])"

section \<open>Example inputs\<close>

text \<open>
  The schema of the people table and the JSON text it is written as, alone and with
  white space around it, and instances of the parameters: a parser that knows this
  one document, gives up with \<^verbatim>\<open>RecursionError\<close> on a text of 100000 or more opening
  brackets and rejects every other text; a \<^verbatim>\<open>float\<close> that reads \<^verbatim>\<open>30\<close> and rejects
  every other text; a provider that always answers \<^verbatim>\<open>Hello!\<close>; an engine that puts
  every new row behind the others. The second environment differs in the engine: it
  has room for a row with a content of fewer than 8 characters before the rows of the
  table, and puts every longer row behind them. Two rows of other keys, one of them of
  the same user, stand for what the table holds besides the conversation looked at.
\<close>

abbreviation quoted :: "string \<Rightarrow> string" where
  "quoted s \<equiv> CHR 0x22 # s @ [CHR 0x22]"

abbreviation people_fields :: "FieldSpec list" where
  "people_fields \<equiv>
     [\<lparr>fname = ''age'', flabel = ''Age'', ftype = ''number''\<rparr>,
      \<lparr>fname = ''name'', flabel = ''Name'', ftype = ''text''\<rparr>]"

abbreviation people_text :: string where
  "people_text \<equiv>
     ''{'' @ quoted ''table_name'' @ '':'' @ quoted ''people'' @ '','' @
     quoted ''fields'' @ '':[{'' @
     quoted ''name'' @ '':'' @ quoted ''age'' @ '','' @
     quoted ''label'' @ '':'' @ quoted ''Age'' @ '','' @
     quoted ''type'' @ '':'' @ quoted ''number'' @ ''},{'' @
     quoted ''name'' @ '':'' @ quoted ''name'' @ '','' @
     quoted ''label'' @ '':'' @ quoted ''Name'' @ '','' @
     quoted ''type'' @ '':'' @ quoted ''text'' @ ''}]}''"

abbreviation padded_people_text :: string where
  "padded_people_text \<equiv> '' '' @ people_text @ [CHR 0x0A]"

abbreviation example_env :: "real env" where
  "example_env \<equiv>
     \<lparr>json_loads = (\<lambda>s. if s = people_text \<or> s = padded_people_text
                          then Inr (SchemaDescription_json (Some ''people'') people_fields)
                          else if list_all (\<lambda>ch. ch = CHR ''['') s \<and> 100000 \<le> length s
                          then Inl RecursionError
                          else Inl JSONDecodeError),
      py_float = (\<lambda>s. if s = ''30'' then Some 30 else None),
      py_str = (\<lambda>v. []),
      llm = (\<lambda>ms. Inr ''Hello!''),
      heap_slot = (\<lambda>rows r. length rows)\<rparr>"

abbreviation reusing_env :: "real env" where
  "reusing_env \<equiv>
     \<lparr>json_loads = (\<lambda>s. Inl JSONDecodeError),
      py_float = (\<lambda>s. None),
      py_str = (\<lambda>v. []),
      llm = (\<lambda>ms. Inr ''Hello!''),
      heap_slot = (\<lambda>rows r. if length (snd (snd (snd r))) < 8 then 0 else length rows)\<rparr>"

abbreviation terminal :: "string list \<Rightarrow> real world" where
  "terminal lines \<equiv> \<lparr>chat_history = [], trace = [], stdin = lines\<rparr>"

abbreviation stored :: "row list \<Rightarrow> real world" where
  "stored rows \<equiv> \<lparr>chat_history = rows, trace = [], stdin = []\<rparr>"

abbreviation other_rows :: "row list" where
  "other_rows \<equiv>
     [(''bob'', ''c1'', ''AI'', ''earlier''), (''ann'', ''c2'', ''Human'', ''elsewhere'')]"

abbreviation ann :: PersistentChatHistory where
  "ann \<equiv> \<lparr>user_id = ''ann'', conversation_id = ''c1'', messages = []\<rparr>"

section \<open>The conversation store\<close>

lemma store_row_mset: "mset (store_row env r rows) = add_mset r (mset rows)"
proof -
  have "mset (take n rows) + mset (drop n rows) = mset rows" for n
    by (metis append_take_drop_id mset_append)
  then show ?thesis
    by (simp add: store_row_def Let_def)
qed

lemma store_row_end:
  "length rows \<le> heap_slot env rows r \<Longrightarrow> store_row env r rows = rows @ [r]"
  by (simp add: store_row_def Let_def)

lemma add_message_eq:
  "add_message env h m w =
     (h\<lparr>messages := messages h @ [m]\<rparr>,
      w\<lparr>chat_history := store_row env
           (user_id h, conversation_id h, if is_AIMessage m then ''AI'' else ''Human'', content m)
           (chat_history w),
        trace := trace w @
           [Execute INSERT_chat_history
              [VStr (user_id h), VStr (conversation_id h),
               VStr (if is_AIMessage m then ''AI'' else ''Human''), VStr (content m)],
            Commit]\<rparr>)"
  by (simp add: add_message_def execute_def commit_def Let_def)

lemma fold_add_message_mset:
  "list_all (\<lambda>(h, m). user_id h = u \<and> conversation_id h = c) calls \<Longrightarrow>
   mset (chat_history (fold (\<lambda>(h, m) w. snd (add_message env h m w)) calls w)) =
     mset (chat_history w) +
     mset (map (\<lambda>(h, m). (u, c, if is_AIMessage m then ''AI'' else ''Human'', content m)) calls)"
  by (induction calls arbitrary: w) (auto simp: add_message_eq store_row_mset)

lemma fold_add_message_end:
  "\<forall>rows r. length rows \<le> heap_slot env rows r \<Longrightarrow>
   list_all (\<lambda>(h, m). user_id h = u \<and> conversation_id h = c) calls \<Longrightarrow>
   chat_history (fold (\<lambda>(h, m) w. snd (add_message env h m w)) calls w) =
     chat_history w @
     map (\<lambda>(h, m). (u, c, if is_AIMessage m then ''AI'' else ''Human'', content m)) calls"
  by (induction calls arbitrary: w) (auto simp: add_message_eq store_row_end)

lemma row_message_tagged:
  "is_AIMessage m \<or> is_HumanMessage m \<Longrightarrow>
   row_message (u, c, if is_AIMessage m then ''AI'' else ''Human'', content m) = m"
  by (cases m) (simp_all add: row_message_def)

lemma fetch_existing_messages_eq:
  "fetch_existing_messages h w =
     (map row_message (filter (row_matches (user_id h) (conversation_id h)) (chat_history w)),
      w\<lparr>trace := trace w @
           [Execute SELECT_chat_history [VStr (user_id h), VStr (conversation_id h)]]\<rparr>)"
  by (simp add: fetch_existing_messages_def execute_def Let_def)

text \<open>
  Claim C1, as amended. Start from a table with no row for the key \<open>(u, c)\<close>, and let
  \<^verbatim>\<open>add_message\<close> be called any number of times, each time on a history object of
  that key and with a human or an ai message. A history object constructed afterwards
  for the key holds exactly these messages, each as often as it was appended and each
  with its role. They stand in the order of the calls when the engine puts every new
  row behind the rows the table has.
\<close>

theorem C1_append_then_load:
  assumes "filter (row_matches u c) (chat_history w) = []"
    and "list_all (\<lambda>(h, m). user_id h = u \<and> conversation_id h = c) calls"
    and "list_all (\<lambda>(h, m). is_AIMessage m \<or> is_HumanMessage m) calls"
  shows "mset (messages (fst (PersistentChatHistory_init u c
           (fold (\<lambda>(h, m) w. snd (add_message env h m w)) calls w)))) = mset (map snd calls) \<and>
         ((\<forall>rows r. length rows \<le> heap_slot env rows r) \<longrightarrow>
          messages (fst (PersistentChatHistory_init u c
            (fold (\<lambda>(h, m) w. snd (add_message env h m w)) calls w))) = map snd calls)"
proof -
  let ?row = "\<lambda>(h :: PersistentChatHistory, m).
                (u, c, if is_AIMessage m then ''AI'' else ''Human'', content m)"
  let ?w = "fold (\<lambda>(h, m) w. snd (add_message env h m w)) calls w"
  have load: "messages (fst (PersistentChatHistory_init u c ?w)) =
      map row_message (filter (row_matches u c) (chat_history ?w))"
    by (simp add: PersistentChatHistory_init_def fetch_existing_messages_eq)
  have own: "filter (row_matches u c) (map ?row calls) = map ?row calls"
    by (simp add: filter_map comp_def row_matches_def case_prod_beta)
  have decode: "map row_message (map ?row calls) = map snd calls"
  proof -
    have "row_message (?row x) = snd x"
      if "case x of (h, m) \<Rightarrow> is_AIMessage m \<or> is_HumanMessage m" for x
      using that row_message_tagged [of "snd x" u c] by (cases x) simp
    with assms(3) show ?thesis
      by (simp add: list_all_iff)
  qed
  have none: "filter_mset (row_matches u c) (mset (chat_history w)) = {#}"
    using assms(1) by (simp flip: mset_filter)
  have "mset (filter (row_matches u c) (chat_history ?w)) =
        mset (filter (row_matches u c) (map ?row calls))"
    using none by (simp add: fold_add_message_mset [OF assms(2)])
  then have "mset (map row_message (filter (row_matches u c) (chat_history ?w))) =
        mset (map row_message (map ?row calls))"
    unfolding own by (simp only: mset_map)
  then have content: "mset (messages (fst (PersistentChatHistory_init u c ?w))) =
        mset (map snd calls)"
    unfolding load decode .
  have order: "messages (fst (PersistentChatHistory_init u c ?w)) = map snd calls"
    if "\<forall>rows r. length rows \<le> heap_slot env rows r"
  proof -
    have "filter (row_matches u c) (chat_history ?w) = map ?row calls"
      using assms(1) own by (simp add: fold_add_message_end [OF that assms(2)])
    with decode show ?thesis
      unfolding load by simp
  qed
  from content order show ?thesis
    by blast
qed

theorem C1_append_then_load_witness:
  "filter (row_matches ''ann'' ''c1'')
     (chat_history (stored other_rows)) = [] \<and>
   list_all (\<lambda>(h, m). user_id h = ''ann'' \<and> conversation_id h = ''c1'')
     [(ann, HumanMessage ''hi''), (ann, AIMessage ''hello''), (ann, HumanMessage ''hi'')] \<and>
   list_all (\<lambda>(h, m). is_AIMessage m \<or> is_HumanMessage m)
     [(ann, HumanMessage ''hi''), (ann, AIMessage ''hello''), (ann, HumanMessage ''hi'')] \<and>
   (\<forall>rows r. length rows \<le> heap_slot example_env rows r) \<and>
   messages (fst (PersistentChatHistory_init ''ann'' ''c1''
     (fold (\<lambda>(h, m) w. snd (add_message example_env h m w))
        [(ann, HumanMessage ''hi''), (ann, AIMessage ''hello''), (ann, HumanMessage ''hi'')]
        (stored other_rows)))) =
     [HumanMessage ''hi'', AIMessage ''hello'', HumanMessage ''hi'']"
  using C1_append_then_load
    [of "''ann''" "''c1''" "stored other_rows"
      "[(ann, HumanMessage ''hi''), (ann, AIMessage ''hello''), (ann, HumanMessage ''hi'')]"
      example_env]
  by (simp add: row_matches_def)

text \<open>
  The claim C1 as it is written promises the order of the calls for every engine. With
  an engine that has room for a short row before the rows of the table, a long
  question and then a short reply, both appended to a conversation that has no row,
  are read back the other way round.
\<close>

theorem C1_counterexample:
  "filter (row_matches ''ann'' ''c1'') (chat_history (stored other_rows)) = [] \<and>
   chat_history
     (snd (add_message reusing_env ann (AIMessage ''Paris'')
        (snd (add_message reusing_env ann (HumanMessage ''the capital of France?'')
           (stored other_rows))))) =
     [(''ann'', ''c1'', ''AI'', ''Paris''),
      (''bob'', ''c1'', ''AI'', ''earlier''), (''ann'', ''c2'', ''Human'', ''elsewhere''),
      (''ann'', ''c1'', ''Human'', ''the capital of France?'')] \<and>
   messages (fst (PersistentChatHistory_init ''ann'' ''c1''
     (snd (add_message reusing_env ann (AIMessage ''Paris'')
        (snd (add_message reusing_env ann (HumanMessage ''the capital of France?'')
           (stored other_rows))))))) =
     [AIMessage ''Paris'', HumanMessage ''the capital of France?'']"
  by (simp add: PersistentChatHistory_init_def fetch_existing_messages_eq add_message_eq
        store_row_def row_matches_def row_message_def)

text \<open>
  Claim C7. Whatever the table and the history object hold, after \<open>clear\<close> the
  object's own list is empty, and a history object constructed for the same key finds
  no message.
\<close>

theorem C7_clear_then_load:
  "messages (fst (clear h w)) = [] \<and>
   messages (fst (PersistentChatHistory_init (user_id h) (conversation_id h)
     (snd (clear h w)))) = []"
  by (simp add: clear_def PersistentChatHistory_init_def fetch_existing_messages_def
        execute_def commit_def)

section \<open>Properties of the chain with memory\<close>

lemma chat_with_memory_invoke_no_config:
  "chat_with_memory_invoke env [] question w =
     (Inl ValueError, w\<lparr>trace := trace w @ [InvokeChain question []]\<rparr>)"
  by (simp add: chat_with_memory_invoke_def Let_def)

text \<open>
  What a call with both ids does: one \<^verbatim>\<open>SELECT\<close>, one call of the provider with the
  system instruction, the rows of the key as the scan returns them and the question,
  and, when the provider answers, two inserts, each committed: the question, then the
  reply.
\<close>

lemma chat_with_memory_invoke_configured:
  assumes "map_of configurable ''user_id'' = Some u"
    and "map_of configurable ''conversation_id'' = Some c"
  shows "chat_with_memory_invoke env configurable question w =
     (let prompt = [SystemMessage ''You are a helpful assistant.''] @
                   map row_message (filter (row_matches u c) (chat_history w)) @
                   [HumanMessage question];
          asked = [InvokeChain question configurable,
                   Execute SELECT_chat_history [VStr u, VStr c],
                   Invoke prompt]
      in case llm env prompt of
           Inl e \<Rightarrow> (Inl e, w\<lparr>trace := trace w @ asked\<rparr>)
         | Inr reply \<Rightarrow>
             (Inr (AIMessage reply),
              w\<lparr>chat_history :=
                  store_row env (u, c, ''AI'', reply)
                    (store_row env (u, c, ''Human'', question) (chat_history w)),
                trace := trace w @ asked @
                  [Execute INSERT_chat_history [VStr u, VStr c, VStr ''Human'', VStr question],
                   Commit,
                   Execute INSERT_chat_history [VStr u, VStr c, VStr ''AI'', VStr reply],
                   Commit]\<rparr>))"
  using assms
  by (simp add: chat_with_memory_invoke_def PersistentChatHistory_init_def
        fetch_existing_messages_eq add_message_eq chat_prompt_def Let_def split: sum.splits)

lemma configured_turn_example:
  "chat_with_memory_invoke example_env
     [(''user_id'', ''ann''), (''conversation_id'', ''c1'')] ''bye''
     (stored [(''ann'', ''c1'', ''Human'', ''hi''), (''bob'', ''c1'', ''AI'', ''other''),
              (''ann'', ''c2'', ''AI'', ''elsewhere''),
              (''ann'', ''c1'', ''AI'', ''hello'')]) =
   (Inr (AIMessage ''Hello!''),
    \<lparr>chat_history =
       [(''ann'', ''c1'', ''Human'', ''hi''), (''bob'', ''c1'', ''AI'', ''other''),
        (''ann'', ''c2'', ''AI'', ''elsewhere''),
        (''ann'', ''c1'', ''AI'', ''hello''), (''ann'', ''c1'', ''Human'', ''bye''),
        (''ann'', ''c1'', ''AI'', ''Hello!'')],
     trace =
       [InvokeChain ''bye'' [(''user_id'', ''ann''), (''conversation_id'', ''c1'')],
        Execute SELECT_chat_history [VStr ''ann'', VStr ''c1''],
        Invoke [SystemMessage ''You are a helpful assistant.'', HumanMessage ''hi'',
                AIMessage ''hello'', HumanMessage ''bye''],
        Execute INSERT_chat_history [VStr ''ann'', VStr ''c1'', VStr ''Human'', VStr ''bye''],
        Commit,
        Execute INSERT_chat_history [VStr ''ann'', VStr ''c1'', VStr ''AI'', VStr ''Hello!''],
        Commit],
     stdin = []\<rparr>)"
  by (simp add: chat_with_memory_invoke_configured store_row_def row_matches_def
        row_message_def Let_def)

section \<open>The table writer\<close>

subsection \<open>The steps on a schema description\<close>

lemma getitem_FieldSpec:
  "getitem (FieldSpec_json f) ''name'' = Inr (JStr (fname f))"
  "getitem (FieldSpec_json f) ''label'' = Inr (JStr (flabel f))"
  "getitem (FieldSpec_json f) ''type'' = Inr (JStr (ftype f))"
  by (simp_all add: getitem_def FieldSpec_json_def)

lemma columns_FieldSpec:
  "columns env (map FieldSpec_json fs) =
     Inr (map (\<lambda>f. fname f @ '' '' @ (if ftype f = ''text'' then ''TEXT'' else ''NUMERIC'')) fs)"
  by (induction fs) (simp_all add: getitem_FieldSpec format_def)

lemma dict_get_SchemaDescription:
  "dict_get (SchemaDescription_json table fs) ''table_name'' dflt =
     Inr (case table of None \<Rightarrow> dflt | Some t \<Rightarrow> JStr t)"
  "dict_get (SchemaDescription_json table fs) ''fields'' dflt = Inr (JArr (map FieldSpec_json fs))"
  by (simp_all add: dict_get_def SchemaDescription_json_def split: option.splits)

lemma input_eq:
  "input prompt w =
     (case stdin w of
        [] \<Rightarrow> (Inl EOFError, w\<lparr>trace := trace w @ [Input prompt]\<rparr>)
      | line # rest \<Rightarrow> (Inr line, w\<lparr>trace := trace w @ [Input prompt], stdin := rest\<rparr>))"
  by (simp add: input_def Let_def split: list.splits)

lemma input_trace:
  "trace (snd (input prompt w)) = trace w @ [Input prompt]"
  "chat_history (snd (input prompt w)) = chat_history w"
  by (simp_all add: input_eq split: list.splits)

text \<open>The loop only asks: it adds \<open>Input\<close> events to the trace and nothing else.\<close>

lemma collect_inputs:
  "\<exists>ps. trace (snd (collect env flds data w)) = trace w @ map Input ps"
proof (induction flds arbitrary: data w)
  case Nil
  show ?case by simp
next
  case (Cons field flds)
  show ?case
  proof (cases "getitem field ''label''")
    case (Inl e)
    then show ?thesis by simp
  next
    case (Inr label)
    let ?p = "format env label @ '': ''"
    obtain r w1 where inp: "input ?p w = (r, w1)" by (cases "input ?p w")
    have tr: "trace w1 = trace w @ [Input ?p]"
      using input_trace(1) [of ?p w] inp by simp
    have stop: "\<exists>ps. trace w1 = trace w @ map Input ps"
      using tr by (intro exI [of _ "[?p]"]) simp
    have "\<exists>ps. trace (snd (collect env flds d w1)) = trace w @ map Input ps" for d
    proof -
      from Cons.IH [of d w1] obtain ps
        where "trace (snd (collect env flds d w1)) = trace w1 @ map Input ps" ..
      with tr have "trace (snd (collect env flds d w1)) = trace w @ map Input (?p # ps)"
        by simp
      then show ?thesis ..
    qed
    with stop Inr inp show ?thesis
      by (simp split: sum.splits)
  qed
qed

text \<open>The exceptions each step can raise.\<close>

lemma getitem_error:
  "getitem d k = Inl e \<Longrightarrow> e = TypeError \<or> e = KeyError k"
  by (auto simp: getitem_def split: json.splits option.splits)

lemma coerce_error:
  "coerce env ty t = Inl e \<Longrightarrow> e = ValueError"
  by (auto simp: coerce_def split: if_splits option.splits)

lemma columns_error:
  "columns env flds = Inl e \<Longrightarrow> e = TypeError \<or> (\<exists>k. e = KeyError k)"
proof (induction flds)
  case Nil
  then show ?case by simp
next
  case (Cons field flds)
  then show ?case
    by (auto split: sum.splits dest: getitem_error)
qed

lemma collect_error:
  "fst (collect env flds data w) = Inl e \<Longrightarrow>
   e = TypeError \<or> e = ValueError \<or> e = EOFError \<or> (\<exists>k. e = KeyError k)"
proof (induction flds arbitrary: data w)
  case Nil
  then show ?case by simp
next
  case (Cons field flds)
  show ?case
  proof (cases "getitem field ''label''")
    case (Inl e')
    with Cons.prems show ?thesis by (auto dest: getitem_error)
  next
    case (Inr label)
    let ?p = "format env label @ '': ''"
    show ?thesis
    proof (cases "stdin w")
      case Nil
      with Cons.prems Inr show ?thesis by (simp add: input_eq)
    next
      case (Cons t ts)
      with Cons.prems Inr Cons.IH show ?thesis
        by (auto simp: input_eq split: sum.splits if_splits
            dest: getitem_error coerce_error)
    qed
  qed
qed

text \<open>
  The loop on the fields of a schema description, when the terminal has a line for
  each field: it succeeds when every text given for a field of type number is
  numeric, and raises \<open>ValueError\<close> otherwise.
\<close>

lemma collect_typed_good:
  assumes "length fs \<le> length (stdin w)"
    and "list_all (\<lambda>(f, t). ftype f = ''number'' \<longrightarrow> py_float env t \<noteq> None) (zip fs (stdin w))"
  shows "collect env (map FieldSpec_json fs) data w =
     (Inr (fold (\<lambda>(f, t). AList.update (JStr (fname f))
                  (if ftype f = ''number'' then VFloat (the (py_float env t)) else VStr t))
             (zip fs (stdin w)) data),
      w\<lparr>trace := trace w @ map (\<lambda>f. Input (flabel f @ '': '')) fs,
        stdin := drop (length fs) (stdin w)\<rparr>)"
  using assms
proof (induction fs arbitrary: data w)
  case Nil
  show ?case by simp
next
  case (Cons f fs)
  from Cons.prems(1) obtain t ts where ts: "stdin w = t # ts"
    by (cases "stdin w") simp_all
  let ?w1 = "w\<lparr>trace := trace w @ [Input (flabel f @ '': '')], stdin := ts\<rparr>"
  have len: "length fs \<le> length (stdin ?w1)"
    using Cons.prems(1) ts by simp
  have good: "list_all (\<lambda>(f, t). ftype f = ''number'' \<longrightarrow> py_float env t \<noteq> None)
                (zip fs (stdin ?w1))"
    using Cons.prems(2) ts by simp
  have here: "ftype f = ''number'' \<longrightarrow> py_float env t \<noteq> None"
    using Cons.prems(2) ts by simp
  show ?case
    using here ts Cons.IH [OF len good]
    by (auto simp: getitem_FieldSpec format_def input_eq coerce_def hashable_def)
qed

lemma collect_typed_bad:
  assumes "length fs \<le> length (stdin w)"
    and "\<not> list_all (\<lambda>(f, t). ftype f = ''number'' \<longrightarrow> py_float env t \<noteq> None) (zip fs (stdin w))"
  shows "fst (collect env (map FieldSpec_json fs) data w) = Inl ValueError"
  using assms
proof (induction fs arbitrary: data w)
  case Nil
  then show ?case by simp
next
  case (Cons f fs)
  from Cons.prems(1) obtain t ts where ts: "stdin w = t # ts"
    by (cases "stdin w") simp_all
  let ?w1 = "w\<lparr>trace := trace w @ [Input (flabel f @ '': '')], stdin := ts\<rparr>"
  show ?case
  proof (cases "ftype f = ''number'' \<and> py_float env t = None")
    case True
    with ts show ?thesis
      by (simp add: getitem_FieldSpec format_def input_eq coerce_def)
  next
    case False
    have len: "length fs \<le> length (stdin ?w1)"
      using Cons.prems(1) ts by simp
    have bad: "\<not> list_all (\<lambda>(f, t). ftype f = ''number'' \<longrightarrow> py_float env t \<noteq> None)
                (zip fs (stdin ?w1))"
      using Cons.prems(2) ts False by auto
    show ?thesis
      using False ts Cons.IH [OF len bad]
      by (auto simp: getitem_FieldSpec format_def input_eq coerce_def hashable_def)
  qed
qed

lemma collect_typed_short:
  assumes "length (stdin w) < length fs"
  shows "\<exists>e. fst (collect env (map FieldSpec_json fs) data w) = Inl e"
  using assms
proof (induction fs arbitrary: data w)
  case Nil
  then show ?case by simp
next
  case (Cons f fs)
  show ?case
  proof (cases "stdin w")
    case Nil
    then show ?thesis
      by (simp add: getitem_FieldSpec input_eq)
  next
    case (Cons t ts)
    let ?w1 = "w\<lparr>trace := trace w @ [Input (flabel f @ '': '')], stdin := ts\<rparr>"
    have "length (stdin ?w1) < length fs"
      using Cons.prems Cons by simp
    from Cons.IH [OF this] Cons show ?thesis
      by (auto simp: getitem_FieldSpec format_def input_eq coerce_def hashable_def
          split: option.splits)
  qed
qed

text \<open>The keys of \<open>data_to_insert\<close> are the field names, each at its first place.\<close>

lemma update_JStr:
  "AList.update (JStr k) x (map (\<lambda>(k, x). (JStr k, x)) d) =
   map (\<lambda>(k, x). (JStr k, x)) (AList.update k x d)"
  by (induction d) auto

lemma fold_update_JStr:
  "fold (\<lambda>(f, t). AList.update (JStr (fname f)) (v f t)) zs (map (\<lambda>(k, x). (JStr k, x)) d) =
   map (\<lambda>(k, x). (JStr k, x)) (fold (\<lambda>(f, t). AList.update (fname f) (v f t)) zs d)"
  by (induction zs arbitrary: d) (auto simp: update_JStr)

lemma fold_update_keys:
  "length fs \<le> length ts \<Longrightarrow>
   map fst (fold (\<lambda>(f, t). AList.update (fname f) (v f t)) (zip fs ts) d) =
   fold (\<lambda>n ks. if n \<in> set ks then ks else ks @ [n]) (map fname fs) (map fst d)"
proof (induction fs arbitrary: ts d)
  case Nil
  show ?case by simp
next
  case (Cons f fs)
  then obtain t ts' where "ts = t # ts'" by (cases ts) simp_all
  with Cons show ?case
    by (simp add: update_keys)
qed

lemma fold_keys_first:
  "fold (\<lambda>n ks. if n \<in> set ks then ks else ks @ [n]) ns [] = rev (remdups (rev ns))"
proof (induction ns rule: rev_induct)
  case Nil
  show ?case by simp
next
  case (snoc n ns)
  then show ?case by simp
qed

lemma str_keys_JStr:
  "str_keys (map fst (map (\<lambda>(k, x). (JStr k, x)) d)) = Inr (map fst d)"
  by (simp add: str_keys_def list_all_iff comp_def case_prod_beta)

lemma update_absent:
  "k \<notin> fst ` set d \<Longrightarrow> AList.update k x d = d @ [(k, x)]"
  by (induction d) auto

lemma fold_update_distinct:
  "distinct (map fname fs) \<Longrightarrow> length fs \<le> length ts \<Longrightarrow>
   fst ` set d \<inter> set (map fname fs) = {} \<Longrightarrow>
   fold (\<lambda>(f, t). AList.update (fname f) (v f t)) (zip fs ts) d =
   d @ map (\<lambda>(f, t). (fname f, v f t)) (zip fs ts)"
proof (induction fs arbitrary: ts d)
  case Nil
  show ?case by simp
next
  case (Cons f fs)
  from Cons.prems(2) obtain t ts' where ts: "ts = t # ts'" by (cases ts) simp_all
  have absent: "fname f \<notin> fst ` set d"
    using Cons.prems(3) by auto
  have "fst ` set (d @ [(fname f, v f t)]) \<inter> set (map fname fs) = {}"
    using Cons.prems(1,3) by auto
  with Cons.IH [of ts' "d @ [(fname f, v f t)]"] Cons.prems(1,2) ts absent show ?case
    by (simp add: update_absent)
qed

subsection \<open>The whole function\<close>

lemma process_schema_SchemaDescription:
  "process_schema env (SchemaDescription_json table fs) w =
     (case collect env (map FieldSpec_json fs) []
             (w\<lparr>trace := trace w @
                [Execute (create_sql (case table of None \<Rightarrow> ''dynamic_data'' | Some t \<Rightarrow> t)
                   (map (\<lambda>f. fname f @ '' '' @
                           (if ftype f = ''text'' then ''TEXT'' else ''NUMERIC'')) fs)) [],
                 Commit]\<rparr>) of
        (Inl e, w2) \<Rightarrow> (Inl e, w2)
      | (Inr data_to_insert, w2) \<Rightarrow>
          (case str_keys (map fst data_to_insert) of
             Inl e \<Rightarrow> (Inl e, w2)
           | Inr keys \<Rightarrow>
               (Inr (success_message (case table of None \<Rightarrow> ''dynamic_data'' | Some t \<Rightarrow> t)),
                w2\<lparr>trace := trace w2 @
                  [Execute (insert_sql (case table of None \<Rightarrow> ''dynamic_data'' | Some t \<Rightarrow> t) keys)
                     (map snd data_to_insert),
                   Commit]\<rparr>)))"
proof -
  have fmt: "format env (case table of None \<Rightarrow> JStr ''dynamic_data'' | Some t \<Rightarrow> JStr t) =
             (case table of None \<Rightarrow> ''dynamic_data'' | Some t \<Rightarrow> t)"
    by (simp add: format_def split: option.splits)
  show ?thesis
    by (simp add: process_schema_def dict_get_SchemaDescription iterate_def columns_FieldSpec
          fmt execute_def commit_def Let_def split: prod.splits sum.splits)
qed

lemma process_schema_good:
  assumes "length fs \<le> length (stdin w)"
    and "list_all (\<lambda>(f, t). ftype f = ''number'' \<longrightarrow> py_float env t \<noteq> None) (zip fs (stdin w))"
  shows "process_schema env (SchemaDescription_json table fs) w =
     (Inr (success_message (case table of None \<Rightarrow> ''dynamic_data'' | Some t \<Rightarrow> t)),
      w\<lparr>trace := trace w @
           [Execute (create_sql (case table of None \<Rightarrow> ''dynamic_data'' | Some t \<Rightarrow> t)
              (map (\<lambda>f. fname f @ '' '' @
                      (if ftype f = ''text'' then ''TEXT'' else ''NUMERIC'')) fs)) [],
            Commit] @
           map (\<lambda>f. Input (flabel f @ '': '')) fs @
           [Execute (insert_sql (case table of None \<Rightarrow> ''dynamic_data'' | Some t \<Rightarrow> t)
              (rev (remdups (rev (map fname fs)))))
              (map snd (fold (\<lambda>(f, t). AList.update (fname f)
                  (if ftype f = ''number'' then VFloat (the (py_float env t)) else VStr t))
                 (zip fs (stdin w)) [])),
            Commit],
        stdin := drop (length fs) (stdin w)\<rparr>)"
proof -
  let ?w1 = "w\<lparr>trace := trace w @
                [Execute (create_sql (case table of None \<Rightarrow> ''dynamic_data'' | Some t \<Rightarrow> t)
                   (map (\<lambda>f. fname f @ '' '' @
                           (if ftype f = ''text'' then ''TEXT'' else ''NUMERIC'')) fs)) [],
                 Commit]\<rparr>"
  let ?v = "\<lambda>f t. if ftype f = ''number'' then VFloat (the (py_float env t)) else VStr t"
  let ?d = "fold (\<lambda>(f, t). AList.update (fname f) (?v f t)) (zip fs (stdin w)) []"
  have len: "length fs \<le> length (stdin ?w1)" using assms(1) by simp
  have good: "list_all (\<lambda>(f, t). ftype f = ''number'' \<longrightarrow> py_float env t \<noteq> None)
                (zip fs (stdin ?w1))"
    using assms(2) by simp
  have data: "fold (\<lambda>(f, t). AList.update (JStr (fname f)) (?v f t)) (zip fs (stdin w)) [] =
              map (\<lambda>(k, x). (JStr k, x)) ?d"
    using fold_update_JStr [of ?v "zip fs (stdin w)" "[]"] by simp
  have keys: "map fst ?d = rev (remdups (rev (map fname fs)))"
    using fold_update_keys [OF assms(1), of ?v "[]"] by (simp add: fold_keys_first)
  have vals: "map snd (map (\<lambda>(k, x). (JStr k, x)) ?d) = map snd ?d"
    by (simp add: comp_def case_prod_beta)
  have c: "collect env (map FieldSpec_json fs) [] ?w1 =
      (Inr (map (\<lambda>(k, x). (JStr k, x)) ?d),
       ?w1\<lparr>trace := trace ?w1 @ map (\<lambda>f. Input (flabel f @ '': '')) fs,
         stdin := drop (length fs) (stdin ?w1)\<rparr>)"
    using collect_typed_good [OF len good, of "[]"] data by simp
  show ?thesis
    using keys vals unfolding process_schema_SchemaDescription c
    by (cases w) (simp add: str_keys_JStr del: map_map)
qed

lemma process_schema_bad:
  assumes "length fs \<le> length (stdin w)"
    and "\<not> list_all (\<lambda>(f, t). ftype f = ''number'' \<longrightarrow> py_float env t \<noteq> None) (zip fs (stdin w))"
  shows "fst (process_schema env (SchemaDescription_json table fs) w) = Inl ValueError"
proof -
  let ?w1 = "w\<lparr>trace := trace w @
                [Execute (create_sql (case table of None \<Rightarrow> ''dynamic_data'' | Some t \<Rightarrow> t)
                   (map (\<lambda>f. fname f @ '' '' @
                           (if ftype f = ''text'' then ''TEXT'' else ''NUMERIC'')) fs)) [],
                 Commit]\<rparr>"
  have len: "length fs \<le> length (stdin ?w1)" using assms(1) by simp
  have bad: "\<not> list_all (\<lambda>(f, t). ftype f = ''number'' \<longrightarrow> py_float env t \<noteq> None)
                (zip fs (stdin ?w1))"
    using assms(2) by simp
  obtain r w2 where c: "collect env (map FieldSpec_json fs) [] ?w1 = (r, w2)"
    by (cases "collect env (map FieldSpec_json fs) [] ?w1")
  with collect_typed_bad [OF len bad, of "[]"] have "r = Inl ValueError"
    by simp
  with c show ?thesis
    by (simp add: process_schema_SchemaDescription)
qed

lemma process_schema_success:
  assumes "fst (process_schema env (SchemaDescription_json table fs) w) = Inr m"
  shows "length fs \<le> length (stdin w) \<and>
     list_all (\<lambda>(f, t). ftype f = ''number'' \<longrightarrow> py_float env t \<noteq> None) (zip fs (stdin w))"
proof -
  let ?w1 = "w\<lparr>trace := trace w @
                [Execute (create_sql (case table of None \<Rightarrow> ''dynamic_data'' | Some t \<Rightarrow> t)
                   (map (\<lambda>f. fname f @ '' '' @
                           (if ftype f = ''text'' then ''TEXT'' else ''NUMERIC'')) fs)) [],
                 Commit]\<rparr>"
  have len: "length fs \<le> length (stdin w)"
  proof (rule ccontr)
    assume "\<not> length fs \<le> length (stdin w)"
    then have "length (stdin ?w1) < length fs" by simp
    from collect_typed_short [OF this, of env "[]"] obtain e w2
      where "collect env (map FieldSpec_json fs) [] ?w1 = (Inl e, w2)"
      by (cases "collect env (map FieldSpec_json fs) [] ?w1") auto
    with assms show False
      by (simp add: process_schema_SchemaDescription)
  qed
  moreover have "list_all (\<lambda>(f, t). ftype f = ''number'' \<longrightarrow> py_float env t \<noteq> None)
                   (zip fs (stdin w))"
  proof (rule ccontr)
    assume "\<not> ?thesis"
    from process_schema_bad [OF len this] assms show False by simp
  qed
  ultimately show ?thesis by simp
qed

lemma process_schema_error:
  assumes "fst (process_schema env schema w) = Inl e"
  shows "e = AttributeError \<or> e = TypeError \<or> e = ValueError \<or> e = EOFError \<or> (\<exists>k. e = KeyError k)"
proof -
  have dg: "dict_get d k dflt = Inl e' \<Longrightarrow> e' = AttributeError" for d :: "'a json" and k dflt e'
    by (auto simp: dict_get_def split: json.splits option.splits)
  have it: "iterate v = Inl e' \<Longrightarrow> e' = TypeError" for v :: "'a json" and e'
    by (auto simp: iterate_def split: json.splits)
  have sk: "str_keys ks = Inl e' \<Longrightarrow> e' = TypeError" for ks :: "'a json list" and e'
    by (auto simp: str_keys_def split: if_splits)
  have co: "collect env flds d w1 = (Inl e', w2) \<Longrightarrow>
            e' = TypeError \<or> e' = ValueError \<or> e' = EOFError \<or> (\<exists>k. e' = KeyError k)"
    for flds d w1 e' w2
    using collect_error [of env flds d w1 e'] by simp
  from assms show ?thesis
    by (auto simp: process_schema_def Let_def split: sum.splits prod.splits
        dest!: dg it sk co columns_error)
qed

lemma process_schema_trace:
  "trace (snd (process_schema env schema w)) = trace w \<and>
     (\<exists>e. fst (process_schema env schema w) = Inl e \<and> e \<noteq> ValueError) \<or>
   (\<exists>table cols ps.
      trace (snd (process_schema env schema w)) =
        trace w @ [Execute (create_sql table cols) [], Commit] @ map Input ps \<and>
      (\<exists>e. fst (process_schema env schema w) = Inl e)) \<or>
   (\<exists>table cols ps keys vals.
      trace (snd (process_schema env schema w)) =
        trace w @ [Execute (create_sql table cols) [], Commit] @ map Input ps @
          [Execute (insert_sql table keys) vals, Commit] \<and>
      (\<exists>m. fst (process_schema env schema w) = Inr m))"
proof (cases "dict_get schema ''table_name'' (JStr ''dynamic_data'')")
  case (Inl e)
  then show ?thesis by (auto simp: process_schema_def dict_get_def split: json.splits option.splits)
next
  case tn: (Inr table_name)
  show ?thesis
  proof (cases "dict_get schema ''fields'' (JArr [])")
    case (Inl e)
    with tn show ?thesis
      by (auto simp: process_schema_def dict_get_def split: json.splits option.splits)
  next
    case fv: (Inr fields_value)
    show ?thesis
    proof (cases "iterate fields_value")
      case (Inl e)
      with tn fv show ?thesis
        by (auto simp: process_schema_def iterate_def split: json.splits)
    next
      case fl: (Inr flds)
      show ?thesis
      proof (cases "columns env flds")
        case (Inl e)
        with tn fv fl columns_error [of env flds e] show ?thesis
          by (auto simp: process_schema_def)
      next
        case cl: (Inr cols)
        let ?table = "format env table_name"
        let ?w1 = "w\<lparr>trace := trace w @ [Execute (create_sql ?table cols) [], Commit]\<rparr>"
        obtain r w2 where c: "collect env flds [] ?w1 = (r, w2)"
          by (cases "collect env flds [] ?w1")
        from collect_inputs [of env flds "[]" ?w1] c obtain ps
          where tr: "trace w2 = trace w @ [Execute (create_sql ?table cols) [], Commit] @ map Input ps"
          by auto
        have unfold: "process_schema env schema w =
            (case r of
               Inl e \<Rightarrow> (Inl e, w2)
             | Inr data_to_insert \<Rightarrow>
                 (case str_keys (map fst data_to_insert) of
                    Inl e \<Rightarrow> (Inl e, w2)
                  | Inr keys \<Rightarrow>
                      (Inr (success_message ?table),
                       w2\<lparr>trace := trace w2 @
                         [Execute (insert_sql ?table keys) (map snd data_to_insert), Commit]\<rparr>)))"
          using tn fv fl cl c
          by (simp add: process_schema_def execute_def commit_def Let_def split: sum.splits)
        show ?thesis
        proof (cases r)
          case (Inl e)
          with unfold tr show ?thesis by auto
        next
          case (Inr d)
          show ?thesis
          proof (cases "str_keys (map fst d)")
            case (Inl e)
            with Inr unfold tr show ?thesis by auto
          next
            case k: (Inr keys)
            with Inr unfold tr show ?thesis by auto
          qed
        qed
      qed
    qed
  qed
qed

lemma people_run:
  "process_schema example_env (SchemaDescription_json (Some ''people'') people_fields)
     (terminal [''30'', who]) =
   (Inr (success_message ''people''),
    \<lparr>chat_history = [],
     trace =
       [Execute ''CREATE TABLE IF NOT EXISTS people (age NUMERIC, name TEXT);'' [], Commit,
        Input ''Age: '', Input ''Name: '',
        Execute ''INSERT INTO people (age, name) VALUES (%s, %s)'' [VFloat 30, VStr who], Commit],
     stdin = []\<rparr>)"
  by (simp add: process_schema_good create_sql_def insert_sql_def)

lemma people_failed_run:
  "process_schema example_env (SchemaDescription_json (Some ''people'') people_fields)
     (terminal [''thirty'', ''Alice'']) =
   (Inl ValueError,
    \<lparr>chat_history = [],
     trace =
       [Execute ''CREATE TABLE IF NOT EXISTS people (age NUMERIC, name TEXT);'' [], Commit,
        Input ''Age: ''],
     stdin = [''Alice'']\<rparr>)"
  by (simp add: process_schema_SchemaDescription create_sql_def getitem_FieldSpec format_def
        input_eq coerce_def)




text \<open>
  Claim C5. Let the terminal have a line for every field. If every text given for a
  field of type number is numeric, the values bound to the INSERT statement are those
  of \<open>data_to_insert\<close>, where the text of a number field is stored as the float it
  denotes and the text of any other field as it is; with distinct field names these
  are the values of the fields in field order. If some text given for a field of type
  number is not numeric, \<^verbatim>\<open>process_schema\<close> raises \<open>ValueError\<close>, and the dispatcher
  does not catch it.
\<close>

theorem C5_number_coercion:
  assumes "length fs \<le> length (stdin w)"
  shows "if list_all (\<lambda>(f, t). ftype f = ''number'' \<longrightarrow> py_float env t \<noteq> None)
              (zip fs (stdin w))
         then (\<exists>pre sql.
                 trace (snd (process_schema env (SchemaDescription_json table fs) w)) =
                   pre @
                   [Execute sql
                      (map snd (fold (\<lambda>(f, t). AList.update (fname f)
                          (if ftype f = ''number'' then VFloat (the (py_float env t)) else VStr t))
                        (zip fs (stdin w)) [])),
                    Commit]) \<and>
              (distinct (map fname fs) \<longrightarrow>
                 map snd (fold (\<lambda>(f, t). AList.update (fname f)
                     (if ftype f = ''number'' then VFloat (the (py_float env t)) else VStr t))
                   (zip fs (stdin w)) []) =
                 map (\<lambda>(f, t). if ftype f = ''number'' then VFloat (the (py_float env t)) else VStr t)
                   (zip fs (stdin w)))
         else fst (process_schema env (SchemaDescription_json table fs) w) = Inl ValueError \<and>
              (\<forall>schema question. strip schema \<noteq> [] \<longrightarrow>
                 json_loads env schema = Inr (SchemaDescription_json table fs) \<longrightarrow>
                 fst (handle_interaction env schema question w) = Inl ValueError)"
proof (cases "list_all (\<lambda>(f, t). ftype f = ''number'' \<longrightarrow> py_float env t \<noteq> None)
                (zip fs (stdin w))")
  case True
  let ?v = "\<lambda>f t. if ftype f = ''number'' then VFloat (the (py_float env t)) else VStr t"
  have "distinct (map fname fs) \<Longrightarrow>
        map snd (fold (\<lambda>(f, t). AList.update (fname f) (?v f t)) (zip fs (stdin w)) []) =
        map (\<lambda>(f, t). ?v f t) (zip fs (stdin w))"
    using fold_update_distinct [of fs "stdin w" "[]" ?v] assms
    by (simp add: comp_def case_prod_beta)
  moreover have "\<exists>pre sql.
      trace (snd (process_schema env (SchemaDescription_json table fs) w)) =
        pre @ [Execute sql
                 (map snd (fold (\<lambda>(f, t). AList.update (fname f) (?v f t)) (zip fs (stdin w)) [])),
               Commit]"
    unfolding process_schema_good [OF assms True]
    by (simp flip: append_assoc del: append_assoc)
  ultimately show ?thesis
    using True by simp
next
  case False
  have err: "fst (process_schema env (SchemaDescription_json table fs) w) = Inl ValueError"
    by (rule process_schema_bad [OF assms False])
  have "fst (handle_interaction env schema question w) = Inl ValueError"
    if "strip schema \<noteq> []" "json_loads env schema = Inr (SchemaDescription_json table fs)"
    for schema question
  proof -
    obtain r w1 where p: "process_schema env (SchemaDescription_json table fs) w = (r, w1)"
      by (cases "process_schema env (SchemaDescription_json table fs) w")
    with err have "r = Inl ValueError" by simp
    with p that show ?thesis
      by (simp add: handle_interaction_def)
  qed
  with err False show ?thesis by simp
qed

lemma strip_people_text: "strip people_text \<noteq> []"
  by (simp add: strip_def isspace_def)

theorem C5_number_coercion_witness:
  "length people_fields \<le> length (stdin (terminal [''30'', ''Alice''])) \<and>
   (\<exists>pre sql.
      trace (snd (process_schema example_env
        (SchemaDescription_json (Some ''people'') people_fields)
        (terminal [''30'', ''Alice'']))) =
      pre @ [Execute sql [VFloat 30, VStr ''Alice''], Commit]) \<and>
   length people_fields \<le> length (stdin (terminal [''thirty'', ''Alice''])) \<and>
   fst (process_schema example_env
     (SchemaDescription_json (Some ''people'') people_fields)
     (terminal [''thirty'', ''Alice''])) = Inl ValueError \<and>
   fst (handle_interaction example_env people_text ''hello''
     (terminal [''thirty'', ''Alice''])) = Inl ValueError"
proof -
  have ok: "length people_fields \<le> length (stdin (terminal [''30'', ''Alice'']))"
    and ko: "length people_fields \<le> length (stdin (terminal [''thirty'', ''Alice'']))"
    by simp_all
  from C5_number_coercion [OF ok, of "example_env" "Some ''people''"]
  have "\<exists>pre sql.
      trace (snd (process_schema example_env
        (SchemaDescription_json (Some ''people'') people_fields)
        (terminal [''30'', ''Alice'']))) =
      pre @ [Execute sql [VFloat 30, VStr ''Alice''], Commit]"
    by simp
  moreover
  from C5_number_coercion [OF ko, of "example_env" "Some ''people''"]
  have "fst (process_schema example_env
          (SchemaDescription_json (Some ''people'') people_fields)
          (terminal [''thirty'', ''Alice''])) = Inl ValueError \<and>
        fst (handle_interaction example_env people_text ''hello''
          (terminal [''thirty'', ''Alice''])) = Inl ValueError"
    using strip_people_text by simp
  ultimately show ?thesis
    using ok ko by blast
qed

text \<open>
  Claim C8. Two runs on the same schema description that both succeed, whatever was
  typed in each, end with an INSERT statement of the same text: it names the table and
  the columns of the schema and has one placeholder per column. The typed values are
  only in the bound parameters.
\<close>

theorem C8_insert_text:
  assumes "fst (process_schema env (SchemaDescription_json table fs) w1) = Inr m1"
    and "fst (process_schema env (SchemaDescription_json table fs) w2) = Inr m2"
  shows "\<exists>pre1 pre2.
     trace (snd (process_schema env (SchemaDescription_json table fs) w1)) =
       pre1 @
       [Execute (''INSERT INTO '' @ (case table of None \<Rightarrow> ''dynamic_data'' | Some t \<Rightarrow> t) @
                 '' ('' @ join '', '' (rev (remdups (rev (map fname fs)))) @ '') VALUES ('' @
                 join '', '' (replicate (length (remdups (map fname fs))) ''%s'') @ '')'')
          (map snd (fold (\<lambda>(f, t). AList.update (fname f)
              (if ftype f = ''number'' then VFloat (the (py_float env t)) else VStr t))
            (zip fs (stdin w1)) [])),
        Commit] \<and>
     trace (snd (process_schema env (SchemaDescription_json table fs) w2)) =
       pre2 @
       [Execute (''INSERT INTO '' @ (case table of None \<Rightarrow> ''dynamic_data'' | Some t \<Rightarrow> t) @
                 '' ('' @ join '', '' (rev (remdups (rev (map fname fs)))) @ '') VALUES ('' @
                 join '', '' (replicate (length (remdups (map fname fs))) ''%s'') @ '')'')
          (map snd (fold (\<lambda>(f, t). AList.update (fname f)
              (if ftype f = ''number'' then VFloat (the (py_float env t)) else VStr t))
            (zip fs (stdin w2)) [])),
        Commit]"
proof -
  have len: "length (remdups (rev (map fname fs))) = length (remdups (map fname fs))"
    by (simp add: length_remdups_card_conv)
  have one: "\<exists>pre.
     trace (snd (process_schema env (SchemaDescription_json table fs) w)) =
       pre @
       [Execute (''INSERT INTO '' @ (case table of None \<Rightarrow> ''dynamic_data'' | Some t \<Rightarrow> t) @
                 '' ('' @ join '', '' (rev (remdups (rev (map fname fs)))) @ '') VALUES ('' @
                 join '', '' (replicate (length (remdups (map fname fs))) ''%s'') @ '')'')
          (map snd (fold (\<lambda>(f, t). AList.update (fname f)
              (if ftype f = ''number'' then VFloat (the (py_float env t)) else VStr t))
            (zip fs (stdin w)) [])),
        Commit]"
    if "fst (process_schema env (SchemaDescription_json table fs) w) = Inr m" for w m
  proof -
    from process_schema_success [OF that]
    have l: "length fs \<le> length (stdin w)"
      and g: "list_all (\<lambda>(f, t). ftype f = ''number'' \<longrightarrow> py_float env t \<noteq> None)
                (zip fs (stdin w))"
      by simp_all
    show ?thesis
      unfolding process_schema_good [OF l g]
      by (simp add: insert_sql_def len flip: append_assoc del: append_assoc)
  qed
  from one [OF assms(1)] one [OF assms(2)] show ?thesis
    by blast
qed

theorem C8_insert_text_witness:
  "fst (process_schema example_env
     (SchemaDescription_json (Some ''people'') people_fields) (terminal [''30'', ''Alice''])) =
     Inr (success_message ''people'') \<and>
   fst (process_schema example_env
     (SchemaDescription_json (Some ''people'') people_fields) (terminal [''30'', ''Bob''])) =
     Inr (success_message ''people'') \<and>
   (\<exists>pre1 pre2.
     trace (snd (process_schema example_env
       (SchemaDescription_json (Some ''people'') people_fields) (terminal [''30'', ''Alice'']))) =
       pre1 @ [Execute ''INSERT INTO people (age, name) VALUES (%s, %s)''
                 [VFloat 30, VStr ''Alice''], Commit] \<and>
     trace (snd (process_schema example_env
       (SchemaDescription_json (Some ''people'') people_fields) (terminal [''30'', ''Bob'']))) =
       pre2 @ [Execute ''INSERT INTO people (age, name) VALUES (%s, %s)''
                 [VFloat 30, VStr ''Bob''], Commit])"
proof -
  have a: "fst (process_schema example_env
     (SchemaDescription_json (Some ''people'') people_fields) (terminal [''30'', ''Alice''])) =
     Inr (success_message ''people'')"
    and b: "fst (process_schema example_env
     (SchemaDescription_json (Some ''people'') people_fields) (terminal [''30'', ''Bob''])) =
     Inr (success_message ''people'')"
    by (simp_all only: people_run fst_conv)
  from C8_insert_text [OF a b] have "\<exists>pre1 pre2.
     trace (snd (process_schema example_env
       (SchemaDescription_json (Some ''people'') people_fields) (terminal [''30'', ''Alice'']))) =
       pre1 @ [Execute ''INSERT INTO people (age, name) VALUES (%s, %s)''
                 [VFloat 30, VStr ''Alice''], Commit] \<and>
     trace (snd (process_schema example_env
       (SchemaDescription_json (Some ''people'') people_fields) (terminal [''30'', ''Bob'']))) =
       pre2 @ [Execute ''INSERT INTO people (age, name) VALUES (%s, %s)''
                 [VFloat 30, VStr ''Bob''], Commit]"
    by simp
  with a b show ?thesis by blast
qed

text \<open>
  Claim C10. For every parsed schema, whatever \<^verbatim>\<open>process_schema\<close> adds to the trace
  starts with the create statement and its commit, so no value is asked for before
  them. When the function raises \<open>ValueError\<close>, the create statement and its commit are
  there, and after them only prompts: no row was inserted.
\<close>

theorem C10_create_committed_first:
  "(trace (snd (process_schema env schema w)) = trace w \<or>
    (\<exists>table cols rest.
       trace (snd (process_schema env schema w)) =
         trace w @
         [Execute (''CREATE TABLE IF NOT EXISTS '' @ table @ '' ('' @ join '', '' cols @ '');'') [],
          Commit] @ rest)) \<and>
   (fst (process_schema env schema w) = Inl ValueError \<longrightarrow>
    (\<exists>table cols prompts.
       trace (snd (process_schema env schema w)) =
         trace w @
         [Execute (''CREATE TABLE IF NOT EXISTS '' @ table @ '' ('' @ join '', '' cols @ '');'') [],
          Commit] @ map Input prompts))"
  using process_schema_trace [of env schema w]
  by (auto simp: create_sql_def)

theorem C10_create_committed_first_witness:
  "fst (process_schema example_env
     (SchemaDescription_json (Some ''people'') people_fields)
     (terminal [''thirty'', ''Alice''])) = Inl ValueError \<and>
   (\<exists>table cols prompts.
      trace (snd (process_schema example_env
        (SchemaDescription_json (Some ''people'') people_fields)
        (terminal [''thirty'', ''Alice'']))) =
      trace (terminal [''thirty'', ''Alice'']) @
      [Execute (''CREATE TABLE IF NOT EXISTS '' @ table @ '' ('' @ join '', '' cols @ '');'') [],
       Commit] @ map Input prompts)"
proof -
  have e: "fst (process_schema example_env
     (SchemaDescription_json (Some ''people'') people_fields)
     (terminal [''thirty'', ''Alice''])) = Inl ValueError"
    by (simp only: people_failed_run fst_conv)
  from C10_create_committed_first [of "example_env"
      "SchemaDescription_json (Some ''people'') people_fields" "terminal [''thirty'', ''Alice'']"] e
  show ?thesis by blast
qed

section \<open>Properties of the dispatcher\<close>

text \<open>What trimming leaves: nothing exactly when the text is white space only.\<close>

lemma strip_empty_iff: "strip s = [] \<longleftrightarrow> list_all isspace s"
proof
  assume "strip s = []"
  then have all: "\<forall>x \<in> set (dropWhile isspace s). isspace x"
    unfolding strip_def by (simp only: rev_is_Nil_conv dropWhile_eq_Nil_conv set_rev)
  have "dropWhile isspace s = []"
  proof (rule ccontr)
    assume ne: "dropWhile isspace s \<noteq> []"
    then have "\<not> isspace (hd (dropWhile isspace s))"
      by (rule hd_dropWhile)
    moreover from ne all have "isspace (hd (dropWhile isspace s))"
      by simp
    ultimately show False by simp
  qed
  then show "list_all isspace s"
    by (simp add: dropWhile_eq_Nil_conv list_all_iff)
next
  assume "list_all isspace s"
  then have "dropWhile isspace s = []"
    by (simp add: dropWhile_eq_Nil_conv list_all_iff)
  then show "strip s = []"
    by (simp only: strip_def rev.simps dropWhile.simps)
qed

lemma strip_padded_people_text: "strip padded_people_text = people_text"
  by (simp add: strip_def isspace_def)

lemma schema_mode_parsed:
  assumes "strip schema \<noteq> []" and "json_loads env schema = Inr d"
  shows "handle_interaction env schema question w = process_schema env d w"
proof -
  obtain r w1 where p: "process_schema env d w = (r, w1)"
    by (cases "process_schema env d w")
  have "r \<noteq> Inl JSONDecodeError"
    using process_schema_error [of env d w JSONDecodeError] p by auto
  with p assms show ?thesis
    by (auto simp: handle_interaction_def split: sum.splits error.splits)
qed

lemma padded_people_run:
  "handle_interaction example_env padded_people_text question (terminal [''30'', who]) =
   (Inr (success_message ''people''),
    \<lparr>chat_history = [],
     trace =
       [Execute ''CREATE TABLE IF NOT EXISTS people (age NUMERIC, name TEXT);'' [], Commit,
        Input ''Age: '', Input ''Name: '',
        Execute ''INSERT INTO people (age, name) VALUES (%s, %s)'' [VFloat 30, VStr who], Commit],
     stdin = []\<rparr>)"
proof -
  have "\<not> list_all isspace padded_people_text"
    by (simp add: isspace_def)
  then have ne: "strip padded_people_text \<noteq> []"
    unfolding strip_empty_iff .
  have parsed: "json_loads example_env padded_people_text =
      Inr (SchemaDescription_json (Some ''people'') people_fields)"
    by simp
  show ?thesis
    unfolding schema_mode_parsed [OF ne parsed] by (rule people_run)
qed

text \<open>
  Claim C3, as amended. For every schema text that is not white space only and on
  which the parser raises \<open>JSONDecodeError\<close>, the dispatcher returns the
  invalid-format message and leaves the world as it was: no statement, no commit, no
  prompt. Any other exception of the parser leaves the dispatcher as it is, the world
  again untouched.
\<close>

theorem C3_invalid_schema:
  assumes "\<not> list_all isspace schema" and "json_loads env schema = Inl e"
  shows "handle_interaction env schema question w =
     (if e = JSONDecodeError then Inr ''Invalid JSON format for schema.'' else Inl e, w)"
proof -
  from assms(1) have "strip schema \<noteq> []"
    by (simp add: strip_empty_iff)
  with assms(2) show ?thesis
    by (simp add: handle_interaction_def invalid_format_message_def split: error.splits)
qed

theorem C3_invalid_schema_witness:
  "\<not> list_all isspace '' not valid json '' \<and>
   json_loads example_env '' not valid json '' = Inl JSONDecodeError \<and>
   handle_interaction example_env '' not valid json '' ''hello'' (terminal []) =
     (Inr ''Invalid JSON format for schema.'', terminal [])"
  using C3_invalid_schema [of "'' not valid json ''" example_env JSONDecodeError "''hello''" "terminal []"]
  by (simp add: isspace_def)

text \<open>
  The claim C3 as it is written covers every text that is not JSON. The empty text is
  not JSON, and it is a chat turn: the chain is called and its exception comes back,
  not the invalid-format message. A text of 100000 opening brackets is not JSON
  either; on it the parser raises \<open>RecursionError\<close>, which the dispatcher does not
  catch.
\<close>

theorem C3_counterexample:
  "json_loads example_env '''' = Inl JSONDecodeError \<and>
   handle_interaction example_env '''' ''hello'' (terminal []) =
     (Inl ValueError, \<lparr>chat_history = [], trace = [InvokeChain ''hello'' []], stdin = []\<rparr>) \<and>
   json_loads example_env (replicate 100000 CHR ''['') = Inl RecursionError \<and>
   handle_interaction example_env (replicate 100000 CHR ''['') ''hello'' (terminal []) =
     (Inl RecursionError, terminal [])"
proof -
  have blank: "handle_interaction example_env '''' ''hello'' (terminal []) =
     (Inl ValueError, \<lparr>chat_history = [], trace = [InvokeChain ''hello'' []], stdin = []\<rparr>)"
    by (simp add: handle_interaction_def strip_def chat_with_memory_invoke_no_config)
  have differs: "replicate n CHR ''['' \<noteq> s" if "CHR ''{'' \<in> set s" for n s
    using that by auto
  have deep: "json_loads example_env (replicate 100000 CHR ''['') = Inl RecursionError"
    using differs [of people_text 100000] differs [of padded_people_text 100000]
    by (simp add: list_all_iff)
  have "\<not> list_all isspace (replicate 100000 CHR ''['')"
    by (simp add: list_all_iff isspace_def)
  then have "strip (replicate 100000 CHR ''['') \<noteq> []"
    unfolding strip_empty_iff .
  with deep have "handle_interaction example_env (replicate 100000 CHR ''['') ''hello''
      (terminal []) = (Inl RecursionError, terminal [])"
    by (simp only: handle_interaction_def if_True not_False_eq_True sum.case error.case
          prod.case)
  with blank deep show ?thesis
    by simp
qed

text \<open>
  Claim C6. When the schema text is white space only, the dispatcher hands the
  question to the chain, with no configuration, and returns what the chain returns;
  nothing else happens. When the text is anything else and parses, the dispatcher does
  what \<^verbatim>\<open>process_schema\<close> does on the parsed schema, and in no case of a text that is
  not white space only is the chain or the provider called.
\<close>

theorem C6_dispatch:
  "(list_all isspace schema \<longrightarrow>
      handle_interaction env schema question w =
        (case chat_with_memory_invoke env [] question w of
           (Inl e, w1) \<Rightarrow> (Inl e, w1)
         | (Inr reply, w1) \<Rightarrow> (Inr (content reply), w1)) \<and>
      trace (snd (handle_interaction env schema question w)) =
        trace w @ [InvokeChain question []]) \<and>
   (\<not> list_all isspace schema \<longrightarrow>
      (\<forall>schema_dict. json_loads env schema = Inr schema_dict \<longrightarrow>
         handle_interaction env schema question w = process_schema env schema_dict w) \<and>
      (\<exists>events. trace (snd (handle_interaction env schema question w)) = trace w @ events \<and>
         (\<forall>q conf. InvokeChain q conf \<notin> set events) \<and>
         (\<forall>prompt. Invoke prompt \<notin> set events)))"
proof -
  have schema_trace: "\<exists>events. trace (snd (handle_interaction env schema question w)) =
      trace w @ events \<and> (\<forall>q conf. InvokeChain q conf \<notin> set events) \<and>
      (\<forall>prompt. Invoke prompt \<notin> set events)"
    if nb: "strip schema \<noteq> []"
  proof (cases "json_loads env schema")
    case (Inl e)
    with nb have "snd (handle_interaction env schema question w) = w"
      by (simp add: handle_interaction_def split: error.splits)
    then show ?thesis by simp
  next
    case (Inr d)
    from process_schema_trace [of env d w] show ?thesis
      unfolding schema_mode_parsed [OF nb Inr]
      by (elim disjE exE conjE) (rule exI [of _ "[]"], simp, (rule exI, rule conjI, assumption, auto)+)
  qed
  have chat: "handle_interaction env schema question w =
        (case chat_with_memory_invoke env [] question w of
           (Inl e, w1) \<Rightarrow> (Inl e, w1)
         | (Inr reply, w1) \<Rightarrow> (Inr (content reply), w1)) \<and>
      trace (snd (handle_interaction env schema question w)) =
        trace w @ [InvokeChain question []]"
    if "strip schema = []"
    using that by (simp add: handle_interaction_def chat_with_memory_invoke_no_config)
  show ?thesis
  proof (cases "list_all isspace schema")
    case True
    then have "strip schema = []"
      by (simp add: strip_empty_iff)
    from chat [OF this] True show ?thesis
      by blast
  next
    case False
    then have nb: "strip schema \<noteq> []"
      by (simp add: strip_empty_iff)
    from schema_mode_parsed [OF nb] schema_trace [OF nb] False show ?thesis
      by blast
  qed
qed

theorem C6_dispatch_witness:
  "list_all isspace [CHR '' '', CHR 0x09, CHR 0x0A] \<and>
   handle_interaction example_env [CHR '' '', CHR 0x09, CHR 0x0A] ''hello'' (terminal []) =
     (Inl ValueError, \<lparr>chat_history = [], trace = [InvokeChain ''hello'' []], stdin = []\<rparr>) \<and>
   \<not> list_all isspace padded_people_text \<and>
   json_loads example_env padded_people_text =
     Inr (SchemaDescription_json (Some ''people'') people_fields) \<and>
   handle_interaction example_env padded_people_text ''hello'' (terminal [''30'', ''Alice'']) =
     (Inr (success_message ''people''),
      \<lparr>chat_history = [],
       trace =
         [Execute ''CREATE TABLE IF NOT EXISTS people (age NUMERIC, name TEXT);'' [], Commit,
          Input ''Age: '', Input ''Name: '',
          Execute ''INSERT INTO people (age, name) VALUES (%s, %s)'' [VFloat 30, VStr ''Alice''],
          Commit],
       stdin = []\<rparr>)"
proof -
  have blank: "list_all isspace [CHR '' '', CHR 0x09, CHR 0x0A]"
    and full: "\<not> list_all isspace padded_people_text"
    by (simp_all add: isspace_def)
  have parsed: "json_loads example_env padded_people_text =
      Inr (SchemaDescription_json (Some ''people'') people_fields)"
    by simp
  from C6_dispatch [of "[CHR '' '', CHR 0x09, CHR 0x0A]" example_env "''hello''" "terminal []"] blank
  have "handle_interaction example_env [CHR '' '', CHR 0x09, CHR 0x0A] ''hello'' (terminal []) =
      (case chat_with_memory_invoke example_env [] ''hello'' (terminal []) of
         (Inl e, w1) \<Rightarrow> (Inl e, w1)
       | (Inr reply, w1) \<Rightarrow> (Inr (content reply), w1))"
    by blast
  then have chat: "handle_interaction example_env [CHR '' '', CHR 0x09, CHR 0x0A] ''hello''
      (terminal []) =
      (Inl ValueError, \<lparr>chat_history = [], trace = [InvokeChain ''hello'' []], stdin = []\<rparr>)"
    by (simp add: chat_with_memory_invoke_no_config)
  from C6_dispatch [of padded_people_text example_env "''hello''" "terminal [''30'', ''Alice'']"]
    full parsed
  have "handle_interaction example_env padded_people_text ''hello''
      (terminal [''30'', ''Alice'']) =
    process_schema example_env (SchemaDescription_json (Some ''people'') people_fields)
      (terminal [''30'', ''Alice''])"
    by blast
  then have run: "handle_interaction example_env padded_people_text ''hello''
      (terminal [''30'', ''Alice'']) =
     (Inr (success_message ''people''),
      \<lparr>chat_history = [],
       trace =
         [Execute ''CREATE TABLE IF NOT EXISTS people (age NUMERIC, name TEXT);'' [], Commit,
          Input ''Age: '', Input ''Name: '',
          Execute ''INSERT INTO people (age, name) VALUES (%s, %s)'' [VFloat 30, VStr ''Alice''],
          Commit],
       stdin = []\<rparr>)"
    by (simp only: people_run)
  from blank chat full parsed run show ?thesis
    by blast
qed

text \<open>
  Claim C9. The dispatcher passes no configuration, and the chain does not fall back
  on the defaults declared for the two ids: on every text that is white space only it
  raises \<open>ValueError\<close> before the history factory is called. No statement is issued,
  no row is read or written, so no key, and in particular not the key of two empty
  strings, is ever used.
\<close>

theorem C9_no_configuration:
  assumes "list_all isspace schema"
  shows "handle_interaction env schema question w =
     (Inl ValueError, w\<lparr>trace := trace w @ [InvokeChain question []]\<rparr>)"
proof -
  from assms have "strip schema = []"
    by (simp add: strip_empty_iff)
  then show ?thesis
    by (simp add: handle_interaction_def chat_with_memory_invoke_no_config)
qed

theorem C9_no_configuration_witness:
  "list_all isspace '' '' \<and>
   handle_interaction example_env '' '' ''hello''
     (stored [('''', '''', ''Human'', ''kept under the empty key'')]) =
     (Inl ValueError,
      \<lparr>chat_history = [('''', '''', ''Human'', ''kept under the empty key'')],
       trace = [InvokeChain ''hello'' []], stdin = []\<rparr>)"
  using C9_no_configuration
    [of "'' ''" example_env "''hello''" "stored [('''', '''', ''Human'', ''kept under the empty key'')]"]
  by (simp add: isspace_def)


end
